theory Spec2Isabelle
  imports Main
begin

section \<open>Python strings\<close>

text \<open>
  A Python \<open>str\<close> is modelled as a \<open>string\<close> holding the UTF-8 bytes of the text. The only
  string operations of \<open>audio_service.py\<close> are concatenation (f-strings), \<open>str.replace\<close> with
  the one-character pattern \<open>'\<close>, \<open>str.lower\<close> and \<open>str.endswith\<close> with an ASCII suffix; on
  ASCII patterns they act on the bytes as they act on the code points.
\<close>

function str_replace :: "string \<Rightarrow> string \<Rightarrow> string \<Rightarrow> string" where
  "str_replace old new s =
     (if old = [] then new @ concat (map (\<lambda>c. c # new) s)
      else if s = [] then []
      else if take (length old) s = old
        then new @ str_replace old new (drop (length old) s)
      else hd s # str_replace old new (tl s))"
  by pat_completeness auto
termination
  by (relation "measure (\<lambda>(old, new, s). length s)") auto

declare str_replace.simps [simp del]

definition lower_char :: "char \<Rightarrow> char" where
  "lower_char c =
     (case map_of (zip ''ABCDEFGHIJKLMNOPQRSTUVWXYZ'' ''abcdefghijklmnopqrstuvwxyz'') c of
        Some l \<Rightarrow> l
      | None \<Rightarrow> c)"

definition lower :: "string \<Rightarrow> string" where
  "lower s = map lower_char s"

definition endswith :: "string \<Rightarrow> string \<Rightarrow> bool" where
  "endswith s suffix = (length suffix \<le> length s \<and> drop (length s - length suffix) s = suffix)"

section \<open>The PowerShell scripts built by the playback operations\<close>

text \<open>
  Each definition is the f-string of the source, line by line; \<open>CHR 0x27\<close> is the single
  quote, and the bytes \<open>0xE2 0x80 0x93\<close> are the en dash that \<open>play_text\<close> has before
  \<open>AssemblyName\<close>.
\<close>

definition play_text_script :: "string \<Rightarrow> string" where
  \<open>play_text_script safe_text =
     ''Add-Type '' @ [CHR 0xE2, CHR 0x80, CHR 0x93] @ ''AssemblyName System.Speech; (New-Object System.Speech.Synthesis.SpeechSynthesizer).Speak('' @ [CHR 0x27] @ safe_text @ [CHR 0x27] @ '')''\<close>

definition play_intro_ps_script :: "string \<Rightarrow> string" where
  \<open>play_intro_ps_script safe_path =
     ''\<newline>'' @
     ''        Add-Type -AssemblyName PresentationCore, PresentationFramework;\<newline>'' @
     ''        $p = New-Object System.Windows.Media.MediaPlayer;\<newline>'' @
     ''        $p.Open('' @ [CHR 0x27] @ safe_path @ [CHR 0x27] @ '');\<newline>'' @
     ''        \<newline>'' @
     ''        # 1. Wait for Media Open / Duration Load (Async)\<newline>'' @
     ''        $attempts = 20; \<newline>'' @
     ''        while (-not $p.NaturalDuration.HasTimeSpan -and $attempts -gt 0) {\<newline>'' @
     ''            Start-Sleep -Milliseconds 100;\<newline>'' @
     ''            $attempts--;\<newline>'' @
     ''        }\<newline>'' @
     ''        \<newline>'' @
     ''        $p.Play();\<newline>'' @
     ''\<newline>'' @
     ''        # 2. Synchronous Wait\<newline>'' @
     ''        if ($p.NaturalDuration.HasTimeSpan) {\<newline>'' @
     ''            while ($p.Position -lt $p.NaturalDuration.TimeSpan) {\<newline>'' @
     ''                Start-Sleep -Milliseconds 100;\<newline>'' @
     ''            }\<newline>'' @
     ''        } else {\<newline>'' @
     ''            # Fallback if duration never loaded (common with some encodings)\<newline>'' @
     ''            write-host "Duration unknown, using fallback wait."\<newline>'' @
     ''            Start-Sleep -Seconds 4;\<newline>'' @
     ''        }\<newline>'' @
     ''        $p.Close();\<newline>'' @
     ''        ''\<close>

definition fallback_script :: "string" where
  \<open>fallback_script =
     ''[console]::beep(800, 400); Start-Sleep -Milliseconds 100; [console]::beep(600, 600)''\<close>

definition play_file_ps_script :: "string \<Rightarrow> string" where
  \<open>play_file_ps_script safe_path =
     ''\<newline>'' @
     ''                Add-Type -AssemblyName PresentationCore, PresentationFramework;\<newline>'' @
     ''                $p = New-Object System.Windows.Media.MediaPlayer;\<newline>'' @
     ''                $p.Open('' @ [CHR 0x27] @ safe_path @ [CHR 0x27] @ '');\<newline>'' @
     ''                $p.Play();\<newline>'' @
     ''                # We need to keep process alive while playing\<newline>'' @
     ''                # But we can'' @ [CHR 0x27] @ ''t easily detect end in a headless Popen without blocking.\<newline>'' @
     ''                # Hack: Just sleep for a long time or until stopped?\<newline>'' @
     ''                # Better: Use a loop that checks '' @ [CHR 0x27] @ ''stop'' @ [CHR 0x27] @ '' signal? No, we kill process to stop.\<newline>'' @
     ''                while ($p.Position -lt $p.NaturalDuration.TimeSpan) { Start-Sleep -Milliseconds 500 }\<newline>'' @
     ''                $p.Close();\<newline>'' @
     ''             ''\<close>

definition play_file_wav_script :: "string \<Rightarrow> string" where
  \<open>play_file_wav_script safe_path =
     ''(New-Object Media.SoundPlayer '' @ [CHR 0x27] @ safe_path @ [CHR 0x27] @ '').PlaySync()''\<close>

definition play_announcement_ps_script :: "string \<Rightarrow> string \<Rightarrow> string" where
  \<open>play_announcement_ps_script safe_intro safe_text =
     ''\<newline>'' @
     ''        Add-Type -AssemblyName PresentationCore, PresentationFramework;\<newline>'' @
     ''        Add-Type -AssemblyName System.Speech;\<newline>'' @
     ''        \<newline>'' @
     ''        # 1. Play Intro\<newline>'' @
     ''        $p = New-Object System.Windows.Media.MediaPlayer;\<newline>'' @
     ''        $p.Open('' @ [CHR 0x27] @ safe_intro @ [CHR 0x27] @ '');\<newline>'' @
     ''        \<newline>'' @
     ''        # Wait for load\<newline>'' @
     ''        $attempts = 20; \<newline>'' @
     ''        while (-not $p.NaturalDuration.HasTimeSpan -and $attempts -gt 0) {\<newline>'' @
     ''            Start-Sleep -Milliseconds 100;\<newline>'' @
     ''            $attempts--;\<newline>'' @
     ''        }\<newline>'' @
     ''        \<newline>'' @
     ''        $p.Play();\<newline>'' @
     ''        \<newline>'' @
     ''        # Wait for end\<newline>'' @
     ''        if ($p.NaturalDuration.HasTimeSpan) {\<newline>'' @
     ''            while ($p.Position -lt $p.NaturalDuration.TimeSpan) {\<newline>'' @
     ''                Start-Sleep -Milliseconds 100;\<newline>'' @
     ''            }\<newline>'' @
     ''        } else {\<newline>'' @
     ''            Start-Sleep -Seconds 4; # Fallback\<newline>'' @
     ''        }\<newline>'' @
     ''        $p.Close();\<newline>'' @
     ''        \<newline>'' @
     ''        # 2. Speak Text\<newline>'' @
     ''        $synth = New-Object System.Speech.Synthesis.SpeechSynthesizer;\<newline>'' @
     ''        $synth.Speak('' @ [CHR 0x27] @ safe_text @ [CHR 0x27] @ '');\<newline>'' @
     ''        ''\<close>

definition play_intro_async_ps_script :: "string \<Rightarrow> string" where
  \<open>play_intro_async_ps_script safe_path =
     ''\<newline>'' @
     ''         Add-Type -AssemblyName PresentationCore, PresentationFramework;\<newline>'' @
     ''         $p = New-Object System.Windows.Media.MediaPlayer;\<newline>'' @
     ''         $p.Open('' @ [CHR 0x27] @ safe_path @ [CHR 0x27] @ '');\<newline>'' @
     ''         \<newline>'' @
     ''         $attempts = 20; \<newline>'' @
     ''         while (-not $p.NaturalDuration.HasTimeSpan -and $attempts -gt 0) { Start-Sleep -Milliseconds 100; $attempts--; }\<newline>'' @
     ''         \<newline>'' @
     ''         $p.Play();\<newline>'' @
     ''         \<newline>'' @
     ''         if ($p.NaturalDuration.HasTimeSpan) {\<newline>'' @
     ''            while ($p.Position -lt $p.NaturalDuration.TimeSpan) { Start-Sleep -Milliseconds 100; }\<newline>'' @
     ''         } else { Start-Sleep -Seconds 4; }\<newline>'' @
     ''         $p.Close();\<newline>'' @
     ''         ''\<close>

section \<open>The service: state, collaborators, history\<close>

text \<open>
  \<open>popen\<close> is the identity of a \<open>subprocess.Popen\<close> object (Python compares them by
  identity), \<open>command\<close> the argument list handed to it. A worker thread made by
  \<open>_run_command\<close> runs \<open>target\<close>: it is \<open>Created\<close> until its first \<open>with self._lock\<close>
  block, \<open>Waiting\<close> while it is inside \<open>proc.communicate()\<close>, in \<open>Cleanup\<close> from there to its
  second \<open>with self._lock\<close> block, and \<open>Finished\<close> after it.

  The field \<open>history\<close> is not a field of the Python object: it records the calls made to
  the collaborators (\<open>print\<close>, \<open>Popen\<close>, \<open>terminate\<close>, \<open>communicate\<close>, \<open>subprocess.run\<close>), in
  order, so that statements about their order can be written.
\<close>

type_synonym command = "string list"

type_synonym popen = nat

datatype exn = Exception string

fun str :: "exn \<Rightarrow> string" where
  "str (Exception msg) = msg"

datatype thread = Created command | Waiting popen | Cleanup popen | Finished

datatype event =
    Print string
  | Popen_returned popen command
  | Popen_raised command
  | Terminate popen
  | Communicate popen
  | Run_started popen command
  | Run_raised command
  | Run_exited popen

record audio_service =
  current_process :: "popen option"
  threads :: "thread list"
  next_popen :: popen
  history :: "event list"

definition init :: audio_service where
  "init = \<lparr>current_process = None, threads = [], next_popen = 0, history = []\<rparr>"

text \<open>
  A call either returns (\<open>Inr\<close>) or raises (\<open>Inl\<close>, with the state at the raise). What a
  collaborator does is an argument of the model: \<open>Some e\<close> says that the call raises \<open>e\<close>.
\<close>

type_synonym 'a result = "(exn \<times> audio_service) + ('a \<times> audio_service)"

definition emit :: "event \<Rightarrow> audio_service \<Rightarrow> audio_service" where
  "emit e s = s\<lparr>history := history s @ [e]\<rparr>"

definition print :: "string \<Rightarrow> audio_service \<Rightarrow> audio_service" where
  "print msg s = emit (Print msg) s"

definition subprocess_Popen :: "exn option \<Rightarrow> command \<Rightarrow> audio_service \<Rightarrow> popen result" where
  "subprocess_Popen raises command s =
     (case raises of
        Some e \<Rightarrow> Inl (e, emit (Popen_raised command) s)
      | None \<Rightarrow>
          Inr (next_popen s,
               emit (Popen_returned (next_popen s) command) (s\<lparr>next_popen := Suc (next_popen s)\<rparr>)))"

definition terminate :: "exn option \<Rightarrow> popen \<Rightarrow> audio_service \<Rightarrow> unit result" where
  "terminate raises proc s =
     (case raises of
        Some e \<Rightarrow> Inl (e, emit (Terminate proc) s)
      | None \<Rightarrow> Inr ((), emit (Terminate proc) s))"

definition communicate :: "exn + string \<Rightarrow> popen \<Rightarrow> audio_service \<Rightarrow> string result" where
  "communicate outcome proc s =
     (case outcome of
        Inl e \<Rightarrow> Inl (e, emit (Communicate proc) s)
      | Inr stderr \<Rightarrow> Inr (stderr, emit (Communicate proc) s))"

section \<open>The Supervisor: \<open>stop\<close> and \<open>_run_command\<close>\<close>

definition stop :: "exn option \<Rightarrow> audio_service \<Rightarrow> unit result" where
  "stop terminate_raises s =
     (case current_process s of
        None \<Rightarrow> Inr ((), s)
      | Some proc \<Rightarrow>
          let s1 = print ''[AudioService] Stopping Audio...'' s;
              s2 = (case terminate terminate_raises proc s1 of
                      Inl (e, s') \<Rightarrow> s'
                    | Inr (u, s') \<Rightarrow> s')
          in Inr ((), s2\<lparr>current_process := None\<rparr>))"

text \<open>
  \<open>_run_command\<close> only makes the thread and starts it; \<open>target\<close> runs later, in three
  steps that other threads can interleave with: the first locked block (\<open>target_start\<close>),
  the blocking \<open>communicate\<close> (\<open>target_wait\<close>) and the second locked block
  (\<open>target_cleanup\<close>). A step of a thread that is not at that point changes nothing.
\<close>

definition run_command :: "command \<Rightarrow> audio_service \<Rightarrow> unit result" where
  "run_command command s = Inr ((), s\<lparr>threads := threads s @ [Created command]\<rparr>)"

definition target_start :: "exn option \<Rightarrow> nat \<Rightarrow> audio_service \<Rightarrow> unit result" where
  "target_start popen_raises i s =
     (if i < length (threads s) then
        (case threads s ! i of
           Created command \<Rightarrow>
             (case subprocess_Popen popen_raises command s of
                Inl (e, s') \<Rightarrow>
                  let s1 = print (''[AudioService] Exception starting process: '' @ str e) s'
                  in Inr ((), s1\<lparr>threads := (threads s1)[i := Finished]\<rparr>)
              | Inr (proc, s') \<Rightarrow>
                  Inr ((), s'\<lparr>current_process := Some proc,
                              threads := (threads s')[i := Waiting proc]\<rparr>))
         | _ \<Rightarrow> Inr ((), s))
      else Inr ((), s))"

definition target_wait :: "exn + string \<Rightarrow> nat \<Rightarrow> audio_service \<Rightarrow> unit result" where
  "target_wait outcome i s =
     (if i < length (threads s) then
        (case threads s ! i of
           Waiting proc \<Rightarrow>
             let s1 = (case communicate outcome proc s of
                         Inl (e, s') \<Rightarrow> s'
                       | Inr (stderr, s') \<Rightarrow>
                           if stderr \<noteq> [] then print (''[AudioService] Process Error: '' @ stderr) s'
                           else s')
             in Inr ((), s1\<lparr>threads := (threads s1)[i := Cleanup proc]\<rparr>)
         | _ \<Rightarrow> Inr ((), s))
      else Inr ((), s))"

definition target_cleanup :: "nat \<Rightarrow> audio_service \<Rightarrow> unit result" where
  "target_cleanup i s =
     (if i < length (threads s) then
        (case threads s ! i of
           Cleanup proc \<Rightarrow>
             let s1 = (if current_process s = Some proc then s\<lparr>current_process := None\<rparr> else s)
             in Inr ((), s1\<lparr>threads := (threads s1)[i := Finished]\<rparr>)
         | _ \<Rightarrow> Inr ((), s))
      else Inr ((), s))"

text \<open>
  \<open>subprocess.run(command, check=True)\<close> blocks its caller while the process runs. Its two
  halves are the spawn, which raises when the program cannot be started, and the return
  after the process has exited, which raises \<open>CalledProcessError\<close> on a non-zero status.
\<close>

definition subprocess_run_spawn :: "exn option \<Rightarrow> command \<Rightarrow> audio_service \<Rightarrow> popen result" where
  "subprocess_run_spawn raises command s =
     (case raises of
        Some e \<Rightarrow> Inl (e, emit (Run_raised command) s)
      | None \<Rightarrow>
          Inr (next_popen s,
               emit (Run_started (next_popen s) command) (s\<lparr>next_popen := Suc (next_popen s)\<rparr>)))"

definition subprocess_run_exit :: "exn option \<Rightarrow> popen \<Rightarrow> audio_service \<Rightarrow> unit result" where
  "subprocess_run_exit raises proc s =
     (case raises of
        Some e \<Rightarrow> Inl (e, emit (Run_exited proc) s)
      | None \<Rightarrow> Inr ((), emit (Run_exited proc) s))"

section \<open>The Launcher: the public playback operations\<close>

definition quote :: string where
  "quote = [CHR 0x27]"

definition play_text :: "exn option \<Rightarrow> string \<Rightarrow> audio_service \<Rightarrow> unit result" where
  "play_text terminate_raises text s =
     (case stop terminate_raises s of
        Inl x \<Rightarrow> Inl x
      | Inr (u, s1) \<Rightarrow>
          let s2 = print (''[AudioService] Speaking: '' @ text) s1;
              safe_text = str_replace quote (quote @ quote) text;
              command = [''powershell'', ''-Command'', play_text_script safe_text]
          in run_command command s2)"

text \<open>
  \<open>play_intro\<close> returns \<open>Some proc\<close> when its caller is now blocked inside
  \<open>subprocess.run\<close> on the process \<open>proc\<close>, and \<open>None\<close> when the call has returned;
  \<open>play_intro_resume\<close> is the rest of the call, from the exit of that process on.
\<close>

definition play_intro ::
  "(string \<Rightarrow> bool) \<Rightarrow> exn option \<Rightarrow> exn option \<Rightarrow> string \<Rightarrow> audio_service \<Rightarrow> popen option result" where
  "play_intro os_path_exists terminate_raises run_raises file_path s =
     (case stop terminate_raises s of
        Inl x \<Rightarrow> Inl x
      | Inr (u, s1) \<Rightarrow>
          let s2 = print (''[AudioService] Playing Intro: '' @ file_path) s1 in
          if \<not> os_path_exists file_path then
            let s3 = print (''[AudioService] Intro file not found at '' @ file_path
                              @ ''. Playing Fallback Tone.'') s2
            in (case run_command [''powershell'', ''-c'', fallback_script] s3 of
                  Inl x \<Rightarrow> Inl x
                | Inr (u, s4) \<Rightarrow> Inr (None, s4))
          else
            let safe_path = str_replace quote (quote @ quote) file_path;
                ps_script = play_intro_ps_script safe_path;
                command = [''powershell'', ''-c'', ps_script]
            in (case subprocess_run_spawn run_raises command s2 of
                  Inl (e, s3) \<Rightarrow>
                    Inr (None, print (''[AudioService] Intro playback failed: '' @ str e) s3)
                | Inr (proc, s3) \<Rightarrow> Inr (Some proc, s3)))"

definition play_intro_resume :: "exn option \<Rightarrow> popen \<Rightarrow> audio_service \<Rightarrow> unit result" where
  "play_intro_resume run_raises proc s =
     (case subprocess_run_exit run_raises proc s of
        Inl (e, s1) \<Rightarrow> Inr ((), print (''[AudioService] Intro playback failed: '' @ str e) s1)
      | Inr (u, s1) \<Rightarrow> Inr ((), s1))"

definition play_file :: "exn option \<Rightarrow> string \<Rightarrow> audio_service \<Rightarrow> unit result" where
  "play_file terminate_raises file_path s =
     (case stop terminate_raises s of
        Inl x \<Rightarrow> Inl x
      | Inr (u, s1) \<Rightarrow>
          let s2 = print (''[AudioService] Playing: '' @ file_path) s1;
              safe_path = str_replace quote (quote @ quote) file_path;
              command =
                (if endswith (lower file_path) ''.wav''
                 then [''powershell'', ''-c'', play_file_wav_script safe_path]
                 else [''powershell'', ''-c'', play_file_ps_script safe_path])
          in run_command command s2)"

definition play_announcement :: "exn option \<Rightarrow> string \<Rightarrow> string \<Rightarrow> audio_service \<Rightarrow> unit result" where
  "play_announcement terminate_raises intro_path text s =
     (case stop terminate_raises s of
        Inl x \<Rightarrow> Inl x
      | Inr (u, s1) \<Rightarrow>
          let s2 = print (''[AudioService] Announcing: Intro -> '' @ quote @ text @ quote) s1;
              safe_intro = str_replace quote (quote @ quote) intro_path;
              safe_text = str_replace quote (quote @ quote) text;
              ps_script = play_announcement_ps_script safe_intro safe_text
          in run_command [''powershell'', ''-c'', ps_script] s2)"

definition play_intro_async :: "exn option \<Rightarrow> string \<Rightarrow> audio_service \<Rightarrow> unit result" where
  "play_intro_async terminate_raises file_path s =
     (case stop terminate_raises s of
        Inl x \<Rightarrow> Inl x
      | Inr (u, s1) \<Rightarrow>
          let s2 = print (''[AudioService] Playing Intro (Async): '' @ file_path) s1;
              safe_path = str_replace quote (quote @ quote) file_path;
              ps_script = play_intro_async_ps_script safe_path
          in run_command [''powershell'', ''-c'', ps_script] s2)"

section \<open>Interleavings\<close>

text \<open>
  The calls of the clients and the steps of the worker threads, in the order in which
  they take effect on the service. Every step is either one locked block or touches no
  shared field between two locked blocks.
\<close>

datatype action =
    Stop "exn option"
  | Play_text "exn option" string
  | Play_intro "exn option" "exn option" string
  | Play_intro_resume "exn option" popen
  | Play_intro_async "exn option" string
  | Play_file "exn option" string
  | Play_announcement "exn option" string string
  | Target_start "exn option" nat
  | Target_wait "exn + string" nat
  | Target_cleanup nat

fun step :: "(string \<Rightarrow> bool) \<Rightarrow> action \<Rightarrow> audio_service \<Rightarrow> unit result" where
  "step fs (Stop tr) s = stop tr s"
| "step fs (Play_text tr text) s = play_text tr text s"
| "step fs (Play_intro tr rr file_path) s =
     (case play_intro fs tr rr file_path s of Inl x \<Rightarrow> Inl x | Inr (blocked, s') \<Rightarrow> Inr ((), s'))"
| "step fs (Play_intro_resume rr proc) s = play_intro_resume rr proc s"
| "step fs (Play_intro_async tr file_path) s = play_intro_async tr file_path s"
| "step fs (Play_file tr file_path) s = play_file tr file_path s"
| "step fs (Play_announcement tr intro_path text) s = play_announcement tr intro_path text s"
| "step fs (Target_start pr i) s = target_start pr i s"
| "step fs (Target_wait outcome i) s = target_wait outcome i s"
| "step fs (Target_cleanup i) s = target_cleanup i s"

fun run :: "(string \<Rightarrow> bool) \<Rightarrow> action list \<Rightarrow> audio_service \<Rightarrow> unit result" where
  "run fs [] s = Inr ((), s)"
| "run fs (a # as) s = (case step fs a s of Inl x \<Rightarrow> Inl x | Inr (u, s') \<Rightarrow> run fs as s')"

section \<open>Auxiliary notions for the proofs\<close>

text \<open>
  \<open>proc_of\<close> is the value of the local variable \<open>proc\<close> of a worker after its first locked
  block. \<open>stop_events\<close> is what a call of \<open>stop()\<close> adds to the history, \<open>stopped\<close> the state it
  returns. A process is \<open>untracked\<close> when it exists and \<open>current_process\<close> is not it; a run
  \<open>spares\<close> it when it stays so and no \<open>terminate()\<close> is called on it. \<open>handles_distinct\<close> says
  that no two workers hold the same \<open>Popen\<close> object and that all of them exist.
\<close>

fun proc_of :: "thread \<Rightarrow> popen option" where
  "proc_of (Created command) = None"
| "proc_of (Waiting proc) = Some proc"
| "proc_of (Cleanup proc) = Some proc"
| "proc_of Finished = None"

definition stop_events :: "audio_service \<Rightarrow> event list" where
  "stop_events s =
     (case current_process s of
        None \<Rightarrow> []
      | Some proc \<Rightarrow> [Print ''[AudioService] Stopping Audio...'', Terminate proc])"

definition stopped :: "audio_service \<Rightarrow> audio_service" where
  "stopped s = s\<lparr>current_process := None, history := history s @ stop_events s\<rparr>"

definition untracked :: "popen \<Rightarrow> audio_service \<Rightarrow> bool" where
  "untracked p s = (p < next_popen s \<and> current_process s \<noteq> Some p)"

definition spares :: "popen \<Rightarrow> audio_service \<Rightarrow> audio_service \<Rightarrow> bool" where
  "spares p s s' =
     (untracked p s' \<and> (\<exists>new. history s' = history s @ new \<and> Terminate p \<notin> set new))"

definition handles_distinct :: "audio_service \<Rightarrow> bool" where
  "handles_distinct s =
     ((\<forall>i < length (threads s). \<forall>p. proc_of (threads s ! i) = Some p \<longrightarrow> p < next_popen s) \<and>
      (\<forall>i < length (threads s). \<forall>j < length (threads s). \<forall>p.
          proc_of (threads s ! i) = Some p \<and> proc_of (threads s ! j) = Some p \<longrightarrow> i = j))"

section \<open>The single-quote rule of the command interpreter\<close>



section \<open>The scripts as programs\<close>

text \<open>
  The scripts are PowerShell source inside the Python source. Each is read here as a
  list of statements, one constructor per kind of statement that occurs in them:

  \<^item> \<open>Add_type names\<close> is \<open>Add-Type -AssemblyName names\<close>;
  \<^item> \<open>New_media_player\<close> is \<open>$p = New-Object System.Windows.Media.MediaPlayer\<close>;
  \<^item> \<open>Open_media path\<close> is \<open>$p.Open('...')\<close>, with \<open>path\<close> the value of the literal;
  \<^item> \<open>Set_attempts n\<close> is \<open>$attempts = n\<close> and \<open>Decrement_attempts\<close> is \<open>$attempts--\<close>;
  \<^item> \<open>Start_sleep_ms n\<close> is \<open>Start-Sleep -Milliseconds n\<close>, \<open>Start_sleep_s n\<close> is
    \<open>Start-Sleep -Seconds n\<close>;
  \<^item> \<open>Play_media\<close> is \<open>$p.Play()\<close> and \<open>Close_media\<close> is \<open>$p.Close()\<close>;
  \<^item> \<open>Write_host msg\<close> is \<open>write-host "msg"\<close>;
  \<^item> \<open>New_synth\<close> is \<open>$synth = New-Object System.Speech.Synthesis.SpeechSynthesizer\<close> and
    \<open>Speak msg\<close> is \<open>$synth.Speak('...')\<close>, with \<open>msg\<close> the value of the literal;
  \<^item> \<open>Console_beep f d\<close> is \<open>[console]::beep(f, d)\<close>;
  \<^item> \<open>Play_sync path\<close> is \<open>(New-Object Media.SoundPlayer '...').PlaySync()\<close>;
  \<^item> \<open>While c body\<close> is \<open>while (c) { body }\<close> and \<open>If_else c yes no\<close> is
    \<open>if (c) { yes } else { no }\<close>.

  The three conditions are \<open>-not $p.NaturalDuration.HasTimeSpan -and $attempts -gt 0\<close>
  (\<open>Poll_pending\<close>), \<open>$p.NaturalDuration.HasTimeSpan\<close> (\<open>Has_time_span\<close>) and
  \<open>$p.Position -lt $p.NaturalDuration.TimeSpan\<close> (\<open>Position_lt_duration\<close>).
\<close>

datatype ps_cond = Poll_pending | Has_time_span | Position_lt_duration

datatype ps_stmt =
    Add_type string
  | New_media_player
  | Open_media string
  | Set_attempts int
  | Decrement_attempts
  | Start_sleep_ms nat
  | Start_sleep_s nat
  | Play_media
  | Close_media
  | Write_host string
  | New_synth
  | Speak string
  | Console_beep nat nat
  | Play_sync string
  | While ps_cond "ps_stmt list"
  | If_else ps_cond "ps_stmt list" "ps_stmt list"







text \<open>
  What running a script does is the list of the calls it makes, in order, and the time
  it has spent asleep. The media player is outside the program: \<open>has_time_span env t\<close> and
  \<open>position_lt_duration env t\<close> are what its two properties answer when the script has
  slept \<open>t\<close> milliseconds since it started. Only the sleeps take time.

  \<open>exec n env prog st\<close> runs at most \<open>n\<close> steps of \<open>prog\<close>: a statement or a test of a loop or
  of an \<open>if\<close> is one step. It returns \<open>Some m\<close> with the \<open>m\<close> steps it did not need when the
  script has come to its end, and \<open>None\<close> with the state reached when it has not: this is
  also the state in which a process killed after \<open>n\<close> steps leaves the world.
\<close>

datatype ps_event =
    Loaded string
  | Player_created
  | Opened string
  | Slept nat
  | Play_started
  | Closed
  | Wrote string
  | Synth_created
  | Spoke string
  | Beeped nat nat
  | Played_sync string


record ps_state =
  clock :: nat
  attempts :: int
  trace :: "ps_event list"








section \<open>Auxiliary notions for the scripts\<close>


definition polled :: "nat \<Rightarrow> ps_state \<Rightarrow> ps_state" where
  "polled k st = st\<lparr>clock := clock st + 100 * k, attempts := attempts st - int k,
                      trace := trace st @ replicate k (Slept 100)\<rparr>"



section \<open>Properties of the Supervisor\<close>

lemma stop_eq: "stop terminate_raises s = Inr ((), stopped s)"
  by (cases terminate_raises; cases "current_process s")
     (simp_all add: stop_def stopped_def stop_events_def terminate_def print_def emit_def Let_def)

lemma stopped_simps [simp]:
  "current_process (stopped s) = None"
  "threads (stopped s) = threads s"
  "next_popen (stopped s) = next_popen s"
  "history (stopped s) = history s @ stop_events s"
  by (simp_all add: stopped_def)

lemma print_simps [simp]:
  "current_process (print msg s) = current_process s"
  "threads (print msg s) = threads s"
  "next_popen (print msg s) = next_popen s"
  "history (print msg s) = history s @ [Print msg]"
  by (simp_all add: print_def emit_def)

lemma emit_simps [simp]:
  "current_process (emit e s) = current_process s"
  "threads (emit e s) = threads s"
  "next_popen (emit e s) = next_popen s"
  "history (emit e s) = history s @ [e]"
  by (simp_all add: emit_def)

lemma play_text_eq:
  "play_text tr text s =
     run_command [''powershell'', ''-Command'', play_text_script (str_replace quote (quote @ quote) text)]
       (print (''[AudioService] Speaking: '' @ text) (stopped s))"
  by (simp add: play_text_def stop_eq Let_def)

lemma play_file_eq:
  "play_file tr file_path s =
     run_command
       (if endswith (lower file_path) ''.wav''
        then [''powershell'', ''-c'', play_file_wav_script (str_replace quote (quote @ quote) file_path)]
        else [''powershell'', ''-c'', play_file_ps_script (str_replace quote (quote @ quote) file_path)])
       (print (''[AudioService] Playing: '' @ file_path) (stopped s))"
  by (simp add: play_file_def stop_eq Let_def)

lemma play_announcement_eq:
  "play_announcement tr intro_path text s =
     run_command [''powershell'', ''-c'',
         play_announcement_ps_script (str_replace quote (quote @ quote) intro_path)
           (str_replace quote (quote @ quote) text)]
       (print (''[AudioService] Announcing: Intro -> '' @ quote @ text @ quote) (stopped s))"
  by (simp add: play_announcement_def stop_eq Let_def)

lemma play_intro_async_eq:
  "play_intro_async tr file_path s =
     run_command [''powershell'', ''-c'',
         play_intro_async_ps_script (str_replace quote (quote @ quote) file_path)]
       (print (''[AudioService] Playing Intro (Async): '' @ file_path) (stopped s))"
  by (simp add: play_intro_async_def stop_eq Let_def)

lemma play_intro_absent_eq:
  "\<not> fs file_path \<Longrightarrow>
   play_intro fs tr rr file_path s =
     Inr (None, (print (''[AudioService] Intro file not found at '' @ file_path
                          @ ''. Playing Fallback Tone.'')
                  (print (''[AudioService] Playing Intro: '' @ file_path) (stopped s)))
                \<lparr>threads := threads s @ [Created [''powershell'', ''-c'', fallback_script]]\<rparr>)"
  by (simp add: play_intro_def stop_eq Let_def run_command_def)

lemma play_intro_present_eq:
  "fs file_path \<Longrightarrow>
   play_intro fs tr rr file_path s =
     (case subprocess_run_spawn rr
             [''powershell'', ''-c'', play_intro_ps_script (str_replace quote (quote @ quote) file_path)]
             (print (''[AudioService] Playing Intro: '' @ file_path) (stopped s)) of
        Inl (e, s3) \<Rightarrow> Inr (None, print (''[AudioService] Intro playback failed: '' @ str e) s3)
      | Inr (proc, s3) \<Rightarrow> Inr (Some proc, s3))"
  by (simp add: play_intro_def stop_eq Let_def)


lemma step_returns: "\<exists>s'. step fs a s = Inr ((), s')"
proof (cases a)
  case (Play_intro tr rr file_path)
  then show ?thesis
    by (cases "fs file_path"; cases rr)
       (simp_all add: play_intro_absent_eq play_intro_present_eq subprocess_run_spawn_def)
next
  case (Play_intro_resume rr proc)
  then show ?thesis
    by (cases rr) (simp_all add: play_intro_resume_def subprocess_run_exit_def)
next
  case (Target_start pr i)
  then show ?thesis
    by (cases pr) (simp_all add: target_start_def subprocess_Popen_def Let_def split: thread.splits)
next
  case (Target_wait outcome i)
  then show ?thesis
    by (cases outcome) (simp_all add: target_wait_def communicate_def Let_def split: thread.splits)
next
  case (Target_cleanup i)
  then show ?thesis
    by (simp add: target_cleanup_def Let_def split: thread.splits)
qed (simp_all add: stop_eq play_text_eq play_file_eq play_announcement_eq play_intro_async_eq
       run_command_def)

lemma stop_events_spare: "current_process s \<noteq> Some p \<Longrightarrow> Terminate p \<notin> set (stop_events s)"
  by (simp add: stop_events_def split: option.splits)

lemma step_spares:
  assumes "untracked p s" and "step fs a s = Inr ((), s')"
  shows "spares p s s'"
proof -
  from assms(1) have u: "p < next_popen s" "current_process s \<noteq> Some p"
    by (simp_all add: untracked_def)
  note se = stop_events_spare[OF u(2)]
  show ?thesis
  proof (cases a)
    case (Stop tr)
    with assms(2) u se show ?thesis
      by (auto simp: stop_eq spares_def untracked_def)
  next
    case (Play_text tr msg)
    with assms(2) u se show ?thesis
      by (auto simp: play_text_eq run_command_def spares_def untracked_def)
  next
    case (Play_intro tr rr file_path)
    with assms(2) u se show ?thesis
      by (cases "fs file_path"; cases rr)
         (auto simp: play_intro_absent_eq play_intro_present_eq subprocess_run_spawn_def
            spares_def untracked_def)
  next
    case (Play_intro_resume rr proc)
    with assms(2) u show ?thesis
      by (cases rr)
         (auto simp: play_intro_resume_def subprocess_run_exit_def spares_def untracked_def)
  next
    case (Play_intro_async tr file_path)
    with assms(2) u se show ?thesis
      by (auto simp: play_intro_async_eq run_command_def spares_def untracked_def)
  next
    case (Play_file tr file_path)
    with assms(2) u se show ?thesis
      by (auto simp: play_file_eq run_command_def spares_def untracked_def)
  next
    case (Play_announcement tr intro_path msg)
    with assms(2) u se show ?thesis
      by (auto simp: play_announcement_eq run_command_def spares_def untracked_def)
  next
    case (Target_start pr i)
    with assms(2) u show ?thesis
      by (cases pr)
         (auto simp: target_start_def subprocess_Popen_def Let_def spares_def untracked_def
            split: thread.splits if_splits)
  next
    case (Target_wait outcome i)
    with assms(2) u show ?thesis
      by (cases outcome)
         (auto simp: target_wait_def communicate_def Let_def spares_def untracked_def
            split: thread.splits if_splits)
  next
    case (Target_cleanup i)
    with assms(2) u show ?thesis
      by (auto simp: target_cleanup_def Let_def spares_def untracked_def
            split: thread.splits if_splits)
  qed
qed

lemma run_spares:
  assumes "untracked p s" and "run fs acts s = Inr ((), s')"
  shows "spares p s s'"
  using assms
proof (induction acts arbitrary: s)
  case Nil
  then show ?case by (simp add: spares_def)
next
  case (Cons a acts)
  from step_returns obtain s1 where s1: "step fs a s = Inr ((), s1)" by blast
  with Cons.prems have r: "run fs acts s1 = Inr ((), s')" by simp
  have a: "spares p s s1" by (rule step_spares[OF Cons.prems(1) s1])
  then have "untracked p s1" by (simp add: spares_def)
  from Cons.IH[OF this r] a show ?case by (auto simp: spares_def)
qed

lemma run_returns: "\<exists>s'. run fs acts s = Inr ((), s')"
proof (induction acts arbitrary: s)
  case Nil
  show ?case by simp
next
  case (Cons a acts)
  from step_returns obtain s1 where "step fs a s = Inr ((), s1)" by blast
  with Cons.IH[of s1] show ?case by simp
qed


lemma handles_distinct_mono:
  assumes "handles_distinct s" and "threads s' = threads s" and "next_popen s \<le> next_popen s'"
  shows "handles_distinct s'"
  using assms unfolding handles_distinct_def by (metis less_le_trans)

lemma handles_distinct_append:
  assumes "handles_distinct s" and "threads s' = threads s @ [Created c]"
    and "next_popen s \<le> next_popen s'"
  shows "handles_distinct s'"
proof -
  have nth: "proc_of ((threads s @ [Created c]) ! i) = Some p \<Longrightarrow> i < length (threads s) \<and>
      proc_of (threads s ! i) = Some p" if "i < Suc (length (threads s))" for i p
    using that by (cases "i < length (threads s)") (auto simp: nth_append less_Suc_eq)
  show ?thesis
    unfolding handles_distinct_def assms(2)
  proof (intro conjI allI impI)
    fix i p assume "i < length (threads s @ [Created c])"
      "proc_of ((threads s @ [Created c]) ! i) = Some p"
    with nth[of i p] have "i < length (threads s)" "proc_of (threads s ! i) = Some p" by auto
    with assms(1,3) show "p < next_popen s'" unfolding handles_distinct_def
      by (metis less_le_trans)
  next
    fix i j p assume "i < length (threads s @ [Created c])" "j < length (threads s @ [Created c])"
      "proc_of ((threads s @ [Created c]) ! i) = Some p \<and> proc_of ((threads s @ [Created c]) ! j) = Some p"
    with nth[of i p] nth[of j p] have "i < length (threads s)" "proc_of (threads s ! i) = Some p"
      "j < length (threads s)" "proc_of (threads s ! j) = Some p" by auto
    with assms(1) show "i = j" unfolding handles_distinct_def by blast
  qed
qed

lemma handles_distinct_update:
  assumes "handles_distinct s" and "threads s' = (threads s)[i := t]"
    and "next_popen s \<le> next_popen s'"
    and "proc_of t = None \<or> proc_of t = proc_of (threads s ! i) \<or>
         (proc_of t = Some (next_popen s) \<and> next_popen s < next_popen s')"
    and "i < length (threads s)"
  shows "handles_distinct s'"
  unfolding handles_distinct_def assms(2)
proof (intro conjI allI impI)
  fix k p assume k: "k < length ((threads s)[i := t])" "proc_of ((threads s)[i := t] ! k) = Some p"
  show "p < next_popen s'"
  proof (cases "k = i")
    case True
    with k assms(5) have "proc_of t = Some p" by simp
    with assms(1,3,4,5) show ?thesis unfolding handles_distinct_def
      by (metis less_le_trans option.distinct(1) option.inject)
  next
    case False
    with k have "k < length (threads s)" "proc_of (threads s ! k) = Some p" by simp_all
    with assms(1,3) show ?thesis unfolding handles_distinct_def by (metis less_le_trans)
  qed
next
  fix k j p assume kj: "k < length ((threads s)[i := t])" "j < length ((threads s)[i := t])"
    "proc_of ((threads s)[i := t] ! k) = Some p \<and> proc_of ((threads s)[i := t] ! j) = Some p"
  have old: "proc_of (threads s ! m) = Some p \<Longrightarrow> m < length (threads s) \<Longrightarrow> p < next_popen s" for m
    using assms(1) unfolding handles_distinct_def by blast
  have inj: "proc_of (threads s ! m) = Some p \<Longrightarrow> proc_of (threads s ! n) = Some p \<Longrightarrow>
      m < length (threads s) \<Longrightarrow> n < length (threads s) \<Longrightarrow> m = n" for m n
    using assms(1) unfolding handles_distinct_def by blast
  have one: "m = i" if "m < length (threads s)" "m \<noteq> i \<longrightarrow> proc_of (threads s ! m) = Some p"
    "proc_of t = Some p" for m
  proof (rule ccontr)
    assume ne: "m \<noteq> i"
    with that have pm: "proc_of (threads s ! m) = Some p" by simp
    from assms(4) that(3) consider "proc_of (threads s ! i) = Some p"
      | "p = next_popen s" by auto
    then show False
    proof cases
      case 1
      from inj[OF pm 1 that(1) assms(5)] ne show False by simp
    next
      case 2
      with old[OF pm that(1)] show False by simp
    qed
  qed
  show "k = j"
  proof (cases "k = i")
    case True
    with kj assms(5) have pt: "proc_of t = Some p" by simp
    from kj have "j < length (threads s)" "j \<noteq> i \<longrightarrow> proc_of (threads s ! j) = Some p" by auto
    from one[OF this pt] True show ?thesis by simp
  next
    case False
    with kj have pk: "k < length (threads s)" "proc_of (threads s ! k) = Some p" by auto
    show ?thesis
    proof (cases "j = i")
      case True
      with kj assms(5) have pt: "proc_of t = Some p" by simp
      from pk have "k \<noteq> i \<longrightarrow> proc_of (threads s ! k) = Some p" by simp
      from one[OF pk(1) this pt] False show ?thesis by simp
    next
      case F2: False
      with kj have "j < length (threads s)" "proc_of (threads s ! j) = Some p" by auto
      from inj[OF pk(2) this(2) pk(1) this(1)] show ?thesis .
    qed
  qed
qed

lemma run_command_threads:
  assumes "run_command c s = Inr ((), s')"
  shows "threads s' = threads s @ [Created c]" "next_popen s' = next_popen s"
proof -
  from assms have "s' = s\<lparr>threads := threads s @ [Created c]\<rparr>"
    by (simp add: run_command_def)
  then show "threads s' = threads s @ [Created c]" "next_popen s' = next_popen s"
    by simp_all
qed

lemma client_step_threads:
  assumes "step fs a s = Inr ((), s')"
    and "\<forall>pr i. a \<noteq> Target_start pr i" "\<forall>outcome i. a \<noteq> Target_wait outcome i"
        "\<forall>i. a \<noteq> Target_cleanup i"
  shows "(threads s' = threads s \<or> (\<exists>c. threads s' = threads s @ [Created c])) \<and>
         next_popen s \<le> next_popen s'"
proof (cases a)
  case (Stop tr)
  with assms(1) have "s' = stopped s" by (simp add: stop_eq)
  then show ?thesis by simp
next
  case (Play_text tr msg)
  with assms(1) run_command_threads show ?thesis
    by (fastforce simp: play_text_eq)
next
  case (Play_intro tr rr file_path)
  show ?thesis
  proof (cases "fs file_path")
    case False
    with Play_intro assms(1) have "s' = (print (''[AudioService] Intro file not found at '' @ file_path
                          @ ''. Playing Fallback Tone.'')
                  (print (''[AudioService] Playing Intro: '' @ file_path) (stopped s)))
                \<lparr>threads := threads s @ [Created [''powershell'', ''-c'', fallback_script]]\<rparr>"
      by (simp add: play_intro_absent_eq)
    then show ?thesis by simp
  next
    case True
    show ?thesis
    proof (cases rr)
      case None
      with True Play_intro assms(1) have "s' = emit (Run_started (next_popen s)
          [''powershell'', ''-c'', play_intro_ps_script (str_replace quote (quote @ quote) file_path)])
         ((print (''[AudioService] Playing Intro: '' @ file_path) (stopped s))
            \<lparr>next_popen := Suc (next_popen s)\<rparr>)"
        by (simp add: play_intro_present_eq subprocess_run_spawn_def)
      then show ?thesis by simp
    next
      case (Some e)
      with True Play_intro assms(1) have
        "s' = print (''[AudioService] Intro playback failed: '' @ str e)
           (emit (Run_raised [''powershell'', ''-c'',
              play_intro_ps_script (str_replace quote (quote @ quote) file_path)])
             (print (''[AudioService] Playing Intro: '' @ file_path) (stopped s)))"
        by (simp add: play_intro_present_eq subprocess_run_spawn_def)
      then show ?thesis by simp
    qed
  qed
next
  case (Play_intro_resume rr proc)
  show ?thesis
  proof (cases rr)
    case None
    with Play_intro_resume assms(1) have "s' = emit (Run_exited proc) s"
      by (simp add: play_intro_resume_def subprocess_run_exit_def)
    then show ?thesis by simp
  next
    case (Some e)
    with Play_intro_resume assms(1) have
      "s' = print (''[AudioService] Intro playback failed: '' @ str e) (emit (Run_exited proc) s)"
      by (simp add: play_intro_resume_def subprocess_run_exit_def)
    then show ?thesis by simp
  qed
next
  case (Play_intro_async tr file_path)
  with assms(1) run_command_threads show ?thesis
    by (fastforce simp: play_intro_async_eq)
next
  case (Play_file tr file_path)
  with assms(1) run_command_threads show ?thesis
    by (fastforce simp: play_file_eq)
next
  case (Play_announcement tr intro_path msg)
  with assms(1) run_command_threads show ?thesis
    by (fastforce simp: play_announcement_eq)
next
  case (Target_start pr i)
  with assms(2) show ?thesis by simp
next
  case (Target_wait outcome i)
  with assms(3) show ?thesis by simp
next
  case (Target_cleanup i)
  with assms(4) show ?thesis by simp
qed

lemma target_start_threads:
  assumes "target_start pr i s = Inr ((), s')"
  shows "s' = s \<or> (i < length (threads s) \<and> next_popen s \<le> next_popen s' \<and>
           (\<exists>t. threads s' = (threads s)[i := t] \<and>
              (proc_of t = None \<or>
               (proc_of t = Some (next_popen s) \<and> next_popen s < next_popen s'))))"
proof (cases "i < length (threads s)")
  case False
  with assms show ?thesis by (simp add: target_start_def)
next
  case True
  show ?thesis
  proof (cases "threads s ! i")
    case (Created c)
    show ?thesis
    proof (cases pr)
      case None
      with True Created assms have "s' = (emit (Popen_returned (next_popen s) c)
           (s\<lparr>next_popen := Suc (next_popen s)\<rparr>))
           \<lparr>current_process := Some (next_popen s),
            threads := (threads s)[i := Waiting (next_popen s)]\<rparr>"
        by (simp add: target_start_def subprocess_Popen_def)
      then have "threads s' = (threads s)[i := Waiting (next_popen s)]"
        "next_popen s' = Suc (next_popen s)" by simp_all
      with True show ?thesis
        by (auto intro!: exI[of _ "Waiting (next_popen s)"])
    next
      case (Some e)
      with True Created assms have "s' = (print (''[AudioService] Exception starting process: '' @ str e)
           (emit (Popen_raised c) s))\<lparr>threads := (threads s)[i := Finished]\<rparr>"
        by (simp add: target_start_def subprocess_Popen_def Let_def)
      then have "threads s' = (threads s)[i := Finished]" "next_popen s' = next_popen s"
        by simp_all
      with True show ?thesis
        by (auto intro!: exI[of _ Finished])
    qed
  qed (use True assms in \<open>simp_all add: target_start_def\<close>)
qed

lemma target_wait_threads:
  assumes "target_wait outcome i s = Inr ((), s')"
  shows "s' = s \<or> (i < length (threads s) \<and> next_popen s' = next_popen s \<and>
           (\<exists>t. threads s' = (threads s)[i := t] \<and> proc_of t = proc_of (threads s ! i)))"
proof (cases "i < length (threads s)")
  case False
  with assms show ?thesis by (simp add: target_wait_def)
next
  case True
  show ?thesis
  proof (cases "threads s ! i")
    case (Waiting q)
    have "threads s' = (threads s)[i := Cleanup q] \<and> next_popen s' = next_popen s"
    proof (cases outcome)
      case (Inl e)
      with True Waiting assms have "s' = (emit (Communicate q) s)
           \<lparr>threads := (threads s)[i := Cleanup q]\<rparr>"
        by (simp add: target_wait_def communicate_def Let_def)
      then show ?thesis by simp
    next
      case (Inr err)
      with True Waiting assms show ?thesis
        by (cases "err = []") (auto simp: target_wait_def communicate_def Let_def)
    qed
    with True Waiting show ?thesis
      by (auto intro!: exI[of _ "Cleanup q"])
  qed (use True assms in \<open>simp_all add: target_wait_def\<close>)
qed

lemma target_cleanup_threads:
  assumes "target_cleanup i s = Inr ((), s')"
  shows "s' = s \<or> (i < length (threads s) \<and> next_popen s' = next_popen s \<and>
           threads s' = (threads s)[i := Finished])"
proof (cases "i < length (threads s)")
  case False
  with assms show ?thesis by (simp add: target_cleanup_def)
next
  case True
  show ?thesis
  proof (cases "threads s ! i")
    case (Cleanup q)
    with True assms have "threads s' = (threads s)[i := Finished]" "next_popen s' = next_popen s"
      by (cases "current_process s = Some q"; auto simp: target_cleanup_def Let_def)+
    with True show ?thesis by simp
  qed (use True assms in \<open>simp_all add: target_cleanup_def\<close>)
qed

lemma step_handles_distinct:
  assumes "handles_distinct s" and "step fs a s = Inr ((), s')"
  shows "handles_distinct s'"
proof -
  consider (start) pr i where "a = Target_start pr i"
    | (wait) outcome i where "a = Target_wait outcome i"
    | (cleanup) i where "a = Target_cleanup i"
    | (client) "\<forall>pr i. a \<noteq> Target_start pr i" "\<forall>outcome i. a \<noteq> Target_wait outcome i"
        "\<forall>i. a \<noteq> Target_cleanup i"
    by (cases a) auto
  then show ?thesis
  proof cases
    case start
    with assms(2) have "target_start pr i s = Inr ((), s')" by simp
    from target_start_threads[OF this] assms(1) show ?thesis
      by (auto intro: handles_distinct_update[OF assms(1)])
  next
    case wait
    with assms(2) have "target_wait outcome i s = Inr ((), s')" by simp
    from target_wait_threads[OF this] assms(1) show ?thesis
      by (auto intro: handles_distinct_update[OF assms(1)])
  next
    case cleanup
    with assms(2) have "target_cleanup i s = Inr ((), s')" by simp
    from target_cleanup_threads[OF this] assms(1) show ?thesis
      by (auto intro: handles_distinct_update[OF assms(1), of s' i Finished])
  next
    case client
    from client_step_threads[OF assms(2) client] assms(1) show ?thesis
      by (auto intro: handles_distinct_mono handles_distinct_append)
  qed
qed

lemma run_handles_distinct:
  assumes "handles_distinct s" and "run fs acts s = Inr ((), s')"
  shows "handles_distinct s'"
  using assms
proof (induction acts arbitrary: s)
  case Nil
  then show ?case by simp
next
  case (Cons a acts)
  from step_returns obtain s1 where s1: "step fs a s = Inr ((), s1)" by blast
  with Cons.prems have r: "run fs acts s1 = Inr ((), s')" by simp
  from Cons.IH[OF step_handles_distinct[OF Cons.prems(1) s1] r] show ?case .
qed

lemma init_handles_distinct: "handles_distinct init"
  by (simp add: handles_distinct_def init_def)

section \<open>Properties of the Launcher\<close>

















lemma polled_trace [simp]:
  "trace (polled k st) = trace st @ replicate k (Slept 100)"
  "clock (polled k st) = clock st + 100 * k"
  by (simp_all add: polled_def)










section \<open>The properties of the specification\<close>

text \<open>
  C3. \<open>stop()\<close> never raises and leaves \<open>current_process\<close> null. With a session active it
  prints, calls \<open>terminate()\<close> on that process, whatever \<open>terminate()\<close> does, and clears the
  handle without any wait; with no session it changes nothing and calls nothing.
\<close>

theorem stop_never_raises_and_clears:
  "\<exists>s'. stop terminate_raises s = Inr ((), s') \<and> current_process s' = None \<and>
        threads s' = threads s \<and> next_popen s' = next_popen s \<and>
        (case current_process s of
           None \<Rightarrow> s' = s
         | Some proc \<Rightarrow>
             history s' = history s @ [Print ''[AudioService] Stopping Audio...'', Terminate proc])"
  by (cases terminate_raises)
     (auto simp: stop_def terminate_def print_def emit_def Let_def split: option.splits)

text \<open>
  C9. When \<open>Popen\<close> raises in the worker's first locked block, the worker prints the error
  and returns: nothing is raised, \<open>current_process\<close> is as it was, and the worker is finished,
  so that neither its wait nor its cleanup does anything afterwards.
\<close>

theorem spawn_failure_is_logged_only:
  assumes "i < length (threads s)" and "threads s ! i = Created command"
  shows "\<exists>s'. target_start (Some e) i s = Inr ((), s') \<and>
           current_process s' = current_process s \<and>
           next_popen s' = next_popen s \<and>
           threads s' = (threads s)[i := Finished] \<and>
           history s' = history s @ [Popen_raised command,
              Print (''[AudioService] Exception starting process: '' @ str e)] \<and>
           target_wait outcome i s' = Inr ((), s') \<and>
           target_cleanup i s' = Inr ((), s')"
  using assms
  by (simp add: target_start_def subprocess_Popen_def print_def emit_def Let_def
        target_wait_def target_cleanup_def)

theorem spawn_failure_is_logged_only_witness:
  "\<exists>s'. target_start (Some (Exception ''no powershell'')) 0
           (init\<lparr>threads := [Created [''powershell'']]\<rparr>) = Inr ((), s') \<and>
         current_process s' = None \<and> threads s' = [Finished] \<and>
         history s' = [Popen_raised [''powershell''],
            Print ''[AudioService] Exception starting process: no powershell'']"
  using spawn_failure_is_logged_only [of 0 "init\<lparr>threads := [Created [''powershell'']]\<rparr>"
      "[''powershell'']" "Exception ''no powershell''" "Inr []"]
  by (auto simp: init_def)

text \<open>
  C2. The cleanup of a worker that holds the process \<open>p\<close> sets \<open>current_process\<close> to null
  when it is \<open>p\<close> and leaves it as it is otherwise. In every state that the service can
  reach, a handle \<open>q\<close> that another worker installed is not \<open>p\<close>, so the cleanup of the
  first worker leaves it installed.
\<close>

theorem cleanup_guard:
  assumes "i < length (threads s)" and "threads s ! i = Cleanup p"
  shows "\<exists>s'. target_cleanup i s = Inr ((), s') \<and>
           current_process s' = (if current_process s = Some p then None else current_process s) \<and>
           (\<forall>fs acts j q. run fs acts init = Inr ((), s) \<and> j < length (threads s) \<and> j \<noteq> i \<and>
               proc_of (threads s ! j) = Some q \<and> current_process s = Some q
               \<longrightarrow> current_process s' = Some q)"
proof -
  let ?s1 = "if current_process s = Some p then s\<lparr>current_process := None\<rparr> else s"
  let ?s' = "?s1\<lparr>threads := (threads ?s1)[i := Finished]\<rparr>"
  have eq: "target_cleanup i s = Inr ((), ?s')"
    using assms by (simp add: target_cleanup_def Let_def)
  have cp: "current_process ?s' = (if current_process s = Some p then None else current_process s)"
    by simp
  have "current_process ?s' = Some q"
    if "run fs acts init = Inr ((), s)" "j < length (threads s)" "j \<noteq> i"
      "proc_of (threads s ! j) = Some q" "current_process s = Some q" for fs acts j q
  proof -
    from run_handles_distinct[OF init_handles_distinct that(1)] have hd: "handles_distinct s" .
    have "q \<noteq> p"
    proof
      assume "q = p"
      with that(4) assms(2) have "proc_of (threads s ! j) = Some p" "proc_of (threads s ! i) = Some p"
        by simp_all
      with hd that(2) assms(1) have "j = i" unfolding handles_distinct_def by blast
      with that(3) show False by simp
    qed
    with that(5) show ?thesis by simp
  qed
  with eq cp show ?thesis by blast
qed

theorem cleanup_guard_witness:
  "\<exists>s s'. run (\<lambda>p. True) [Play_text None ''a'', Target_start None 0, Play_text None ''b'',
               Target_start None 1, Target_wait (Inl (Exception ''killed'')) 0] init = Inr ((), s) \<and>
      threads s = [Cleanup 0, Waiting 1] \<and> current_process s = Some 1 \<and>
      target_cleanup 0 s = Inr ((), s') \<and> current_process s' = Some 1"
proof -
  let ?acts = "[Play_text None ''a'', Target_start None 0, Play_text None ''b'',
               Target_start None 1, Target_wait (Inl (Exception ''killed'')) 0]"
  have "\<exists>s. run (\<lambda>p. True) ?acts init = Inr ((), s) \<and>
      threads s = [Cleanup 0, Waiting 1] \<and> current_process s = Some 1"
    by (simp add: play_text_eq run_command_def stopped_def stop_events_def init_def quote_def
        target_start_def target_wait_def communicate_def subprocess_Popen_def emit_def print_def)
  then obtain s where s: "run (\<lambda>p. True) ?acts init = Inr ((), s)"
    "threads s = [Cleanup 0, Waiting 1]" "current_process s = Some 1" by blast
  from cleanup_guard [of 0 s 0] s(2) obtain s' where
    c: "target_cleanup 0 s = Inr ((), s')"
    and g: "\<forall>fs acts j q. run fs acts init = Inr ((), s) \<and> j < length (threads s) \<and> j \<noteq> 0 \<and>
               proc_of (threads s ! j) = Some q \<and> current_process s = Some q
               \<longrightarrow> current_process s' = Some q"
    by auto
  from g have "run (\<lambda>p. True) ?acts init = Inr ((), s) \<and> 1 < length (threads s) \<and>
      (1::nat) \<noteq> 0 \<and> proc_of (threads s ! 1) = Some 1 \<and> current_process s = Some 1
      \<longrightarrow> current_process s' = Some 1"
    by blast
  moreover have "1 < length (threads s)" "proc_of (threads s ! 1) = Some 1"
    using s(2) by simp_all
  ultimately have "current_process s' = Some 1"
    using s(1,3) by blast
  with s c show ?thesis by blast
qed

text \<open>
  C10. With the intro file present, \<open>play_intro\<close> runs its script through \<open>subprocess.run\<close>:
  after its \<open>stop()\<close> it writes neither \<open>current_process\<close> nor the list of workers, and the
  process it waits for is never the tracked one, whatever the other threads do meanwhile;
  no \<open>terminate()\<close> is ever called on it, in particular not by a \<open>stop()\<close>.
\<close>

theorem play_intro_sync_untracked:
  assumes "fs file_path"
  shows "\<exists>blocked s'. play_intro fs tr rr file_path s = Inr (blocked, s') \<and>
           current_process s' = None \<and> threads s' = threads s \<and>
           (case blocked of
              None \<Rightarrow> rr \<noteq> None
            | Some proc \<Rightarrow>
                rr = None \<and> proc = next_popen s \<and>
                history s' = history s @ stop_events s @
                  [Print (''[AudioService] Playing Intro: '' @ file_path),
                   Run_started proc [''powershell'', ''-c'',
                     play_intro_ps_script (str_replace quote (quote @ quote) file_path)]] \<and>
                (\<forall>acts s''. run fs acts s' = Inr ((), s'') \<longrightarrow>
                   current_process s'' \<noteq> Some proc \<and>
                   (\<exists>new. history s'' = history s' @ new \<and> Terminate proc \<notin> set new)))"
proof (cases rr)
  case (Some e)
  with assms show ?thesis
    by (simp add: play_intro_present_eq subprocess_run_spawn_def)
next
  case None
  let ?c = "[''powershell'', ''-c'',
      play_intro_ps_script (str_replace quote (quote @ quote) file_path)]"
  let ?s' = "emit (Run_started (next_popen s) ?c)
      ((print (''[AudioService] Playing Intro: '' @ file_path) (stopped s))
         \<lparr>next_popen := Suc (next_popen s)\<rparr>)"
  from assms None have eq: "play_intro fs tr rr file_path s = Inr (Some (next_popen s), ?s')"
    by (simp add: play_intro_present_eq subprocess_run_spawn_def)
  have u: "untracked (next_popen s) ?s'"
    by (simp add: untracked_def)
  have "current_process s'' \<noteq> Some (next_popen s) \<and>
        (\<exists>new. history s'' = history ?s' @ new \<and> Terminate (next_popen s) \<notin> set new)"
    if "run fs acts ?s' = Inr ((), s'')" for acts s''
    using run_spares[OF u that] by (simp add: spares_def untracked_def)
  with eq None show ?thesis by simp
qed

theorem play_intro_sync_untracked_witness:
  "\<exists>s' s''. play_intro (\<lambda>p. True) None None ''chime.mp3'' init = Inr (Some 0, s') \<and>
      run (\<lambda>p. True) [Stop None] s' = Inr ((), s'') \<and> current_process s'' \<noteq> Some 0"
proof -
  from play_intro_sync_untracked [of "\<lambda>p. True" "''chime.mp3''" None None init]
  obtain blocked s' where
    a: "play_intro (\<lambda>p. True) None None ''chime.mp3'' init = Inr (blocked, s')"
    and b: "case blocked of None \<Rightarrow> (None :: exn option) \<noteq> None
            | Some proc \<Rightarrow> proc = next_popen init \<and>
                (\<forall>acts s''. run (\<lambda>p. True) acts s' = Inr ((), s'') \<longrightarrow>
                   current_process s'' \<noteq> Some proc)"
    by (auto split: option.splits)
  from b have c: "blocked = Some 0"
    "\<forall>acts s''. run (\<lambda>p. True) acts s' = Inr ((), s'') \<longrightarrow> current_process s'' \<noteq> Some 0"
    by (auto simp: init_def split: option.splits)
  from run_returns obtain s'' where d: "run (\<lambda>p. True) [Stop None] s' = Inr ((), s'')"
    by blast
  with a c show ?thesis by blast
qed

text \<open>
  C1. Two \<open>play_text\<close> calls back to back, the worker of the first reaching its locked block
  only after the \<open>stop()\<close> of the second: the second process is spawned while the handle of
  the first is installed, and no \<open>terminate()\<close> is called on the first.
\<close>

theorem back_to_back_overlap:
  "\<exists>s3 s4.
     run (\<lambda>p. True) [Play_text None ''a'', Play_text None ''b'', Target_start None 0] init
       = Inr ((), s3) \<and>
     current_process s3 = Some 0 \<and>
     target_start None 1 s3 = Inr ((), s4) \<and>
     current_process s4 = Some 1 \<and>
     threads s4 = [Waiting 0, Waiting 1] \<and>
     history s4 =
       [Print ''[AudioService] Speaking: a'', Print ''[AudioService] Speaking: b'',
        Popen_returned 0 [''powershell'', ''-Command'', play_text_script ''a''],
        Popen_returned 1 [''powershell'', ''-Command'', play_text_script ''b'']]"
  by (simp add: play_text_eq run_command_def stopped_def stop_events_def init_def quote_def
        target_start_def subprocess_Popen_def emit_def print_def str_replace.simps)












text \<open>
  X1. Every operation that goes through \<open>_run_command\<close> returns without raising, with
  \<open>current_process\<close> null, the history extended by what its \<open>stop()\<close> did and by its own
  print, and one new worker that has not yet spawned its process.
\<close>

theorem operations_stop_then_start_worker:
  "(\<exists>s' c. play_text tr msg s = Inr ((), s') \<and> current_process s' = None \<and>
      threads s' = threads s @ [Created c] \<and>
      history s' = history s @ stop_events s @ [Print (''[AudioService] Speaking: '' @ msg)]) \<and>
   (\<exists>s' c. play_intro_async tr file_path s = Inr ((), s') \<and> current_process s' = None \<and>
      threads s' = threads s @ [Created c] \<and>
      history s' = history s @ stop_events s @
        [Print (''[AudioService] Playing Intro (Async): '' @ file_path)]) \<and>
   (\<exists>s' c. play_file tr file_path s = Inr ((), s') \<and> current_process s' = None \<and>
      threads s' = threads s @ [Created c] \<and>
      history s' = history s @ stop_events s @ [Print (''[AudioService] Playing: '' @ file_path)]) \<and>
   (\<exists>s' c. play_announcement tr file_path msg s = Inr ((), s') \<and> current_process s' = None \<and>
      threads s' = threads s @ [Created c] \<and>
      history s' = history s @ stop_events s @
        [Print (''[AudioService] Announcing: Intro -> '' @ [CHR 0x27] @ msg @ [CHR 0x27])])"
proof -
  have "\<exists>s' c. play_text tr msg s = Inr ((), s') \<and> current_process s' = None \<and>
      threads s' = threads s @ [Created c] \<and>
      history s' = history s @ stop_events s @ [Print (''[AudioService] Speaking: '' @ msg)]"
    by (simp add: play_text_eq run_command_def)
  moreover have "\<exists>s' c. play_intro_async tr file_path s = Inr ((), s') \<and>
      current_process s' = None \<and> threads s' = threads s @ [Created c] \<and>
      history s' = history s @ stop_events s @
        [Print (''[AudioService] Playing Intro (Async): '' @ file_path)]"
    by (simp add: play_intro_async_eq run_command_def)
  moreover have "\<exists>s' c. play_file tr file_path s = Inr ((), s') \<and> current_process s' = None \<and>
      threads s' = threads s @ [Created c] \<and>
      history s' = history s @ stop_events s @ [Print (''[AudioService] Playing: '' @ file_path)]"
    by (simp add: play_file_eq run_command_def)
  moreover have "\<exists>s' c. play_announcement tr file_path msg s = Inr ((), s') \<and>
      current_process s' = None \<and> threads s' = threads s @ [Created c] \<and>
      history s' = history s @ stop_events s @
        [Print (''[AudioService] Announcing: Intro -> '' @ [CHR 0x27] @ msg @ [CHR 0x27])]"
    by (simp add: play_announcement_eq run_command_def quote_def)
  ultimately show ?thesis by blast
qed

end
